theory Spec2Isabelle
  imports Complex_Main "HOL-Library.AList" "HOL-Library.Product_Lexorder"
begin

section \<open>Mystic Realms enhanced server: shallow embedding of \<open>src/enhanced_server.py\<close>\<close>

subsection \<open>Python values, exceptions and runtime parameters\<close>

text \<open>
  Exceptions are values. \<open>SocketTimeout\<close> is \<open>socket.timeout\<close>, which the discovery
  loop catches separately; every other constructor is an ordinary \<open>Exception\<close>.
\<close>

datatype py_error =
    ValueError
  | KeyError
  | AttributeError
  | SocketTimeout
  | UnicodeDecodeError
  | OSError
  | MapLoadError
  | HandlerError

text \<open>Values stored in the per-entity dictionaries.\<close>

datatype pyval = IntV int | BoolV bool | ListV "int list"

type_synonym position = "int \<times> int"

text \<open>
  A Python \<open>set\<close> is a HOL set. Iterating over it (\<open>list(s)\<close>, a comprehension)
  visits every element once, in an order the runtime chooses; the order is the parameter
  \<open>order\<close> of the functions that iterate, and \<open>enumerates\<close> is all that is known of it.
\<close>

definition enumerates :: "('a set \<Rightarrow> 'a list) \<Rightarrow> bool" where
  "enumerates order = (\<forall>S. finite S \<longrightarrow> set (order S) = S \<and> distinct (order S))"

text \<open>
  \<open>random.randint(a, b)\<close>: raises \<open>ValueError\<close> on an empty range, otherwise returns a
  number of \<open>[a, b]\<close>; \<open>r\<close> is the entropy the generator supplies for this call.
\<close>

definition randint :: "int \<Rightarrow> int \<Rightarrow> nat \<Rightarrow> py_error + int" where
  "randint a b r = (if b < a then Inl ValueError else Inr (a + int r mod (b - a + 1)))"

subsection \<open>Spawn positions (\<open>_generateOptimizedSpawnPositions\<close>)\<close>

text \<open>
  The test of line 342: some accepted position is nearer than 100 units on the x axis
  and nearer than 100 units on the y axis.
\<close>

definition tooClose :: "position \<Rightarrow> position set \<Rightarrow> bool" where
  "tooClose c positions =
     (\<exists>(px, py) \<in> positions. \<bar>fst c - px\<bar> < 100 \<and> \<bar>snd c - py\<bar> < 100)"

text \<open>
  The \<open>while\<close> loop of lines 337 to 345. \<open>sbc\<close> is \<open>self.serverBoundaryCoordinates\<close>,
  \<open>rnd attempts\<close> the entropy of the two \<open>randint\<close> calls of that iteration. The result
  is the final \<open>positions\<close> with the final \<open>attempts\<close>, or the exception of \<open>randint\<close>.
\<close>

function spawnSearch ::
  "position \<Rightarrow> (int \<Rightarrow> nat \<times> nat) \<Rightarrow> int \<Rightarrow> int \<Rightarrow> position \<Rightarrow> position set \<Rightarrow> int
     \<Rightarrow> py_error + (position set \<times> int)" where
  "spawnSearch sbc rnd count maxAttempts boundaries positions attempts =
     (if int (card positions) < count \<and> attempts < maxAttempts then
        (case randint 0 (fst sbc) (fst (rnd attempts)) of
           Inl e \<Rightarrow> Inl e
         | Inr rx \<Rightarrow>
             (case randint 0 (snd sbc) (snd (rnd attempts)) of
                Inl e \<Rightarrow> Inl e
              | Inr ry \<Rightarrow>
                  (let x = fst boundaries + rx; y = snd boundaries + ry in
                   spawnSearch sbc rnd count maxAttempts boundaries
                     (if \<not> tooClose (x, y) positions then insert (x, y) positions
                      else positions)
                     (attempts + 1))))
      else Inr (positions, attempts))"
  by pat_completeness auto
termination
  by (relation "measure (\<lambda>(sbc, rnd, count, maxAttempts, boundaries, positions, attempts).
        nat (maxAttempts - attempts))") auto

declare spawnSearch.simps [simp del]

definition generateOptimizedSpawnPositions ::
  "(position set \<Rightarrow> position list) \<Rightarrow> position \<Rightarrow> (int \<Rightarrow> nat \<times> nat) \<Rightarrow> int \<Rightarrow> position
     \<Rightarrow> py_error + position list" where
  "generateOptimizedSpawnPositions order sbc rnd count boundaries =
     (let maxAttempts = count * 10 in
      case spawnSearch sbc rnd count maxAttempts boundaries {} 0 of
        Inl e \<Rightarrow> Inl e
      | Inr (positions, attempts) \<Rightarrow> Inr (order positions))"

text \<open>
  Vocabulary of the spawn claims: the rectangle a region covers (origin \<open>boundaries\<close>,
  extent \<open>sbc\<close>), the separation of a set of positions, and the candidate drawn at a
  given attempt.
\<close>

definition withinRegion :: "position \<Rightarrow> position \<Rightarrow> position \<Rightarrow> bool" where
  "withinRegion sbc boundaries p =
     (fst boundaries \<le> fst p \<and> fst p \<le> fst boundaries + fst sbc \<and>
      snd boundaries \<le> snd p \<and> snd p \<le> snd boundaries + snd sbc)"

definition separated :: "position set \<Rightarrow> bool" where
  "separated P =
     (\<forall>p \<in> P. \<forall>q \<in> P. p \<noteq> q \<longrightarrow> 100 \<le> \<bar>fst p - fst q\<bar> \<or> 100 \<le> \<bar>snd p - snd q\<bar>)"

definition candidateAt :: "position \<Rightarrow> (int \<Rightarrow> nat \<times> nat) \<Rightarrow> position \<Rightarrow> int \<Rightarrow> position" where
  "candidateAt sbc rnd boundaries i =
     (fst boundaries + int (fst (rnd i)) mod (fst sbc + 1),
      snd boundaries + int (snd (rnd i)) mod (snd sbc + 1))"

subsection \<open>Map geometry and the spatial index\<close>

text \<open>
  A tile is the tuple \<open>(x, width, y, height)\<close> of the annotation
  \<open>Set[Tuple[int, int, int, int]]\<close>. The division of line 210 is Python's true
  division, so a centre is a pair of rationals; rounding of floats is not modelled.
\<close>

type_synonym tile = "int \<times> int \<times> int \<times> int"

type_synonym point = "rat \<times> rat"

record tmx_object =
  obj_x :: int
  obj_width :: int
  obj_y :: int
  obj_height :: int

text \<open>
  A layer of the loaded map: a \<open>pytmx.TiledObjectGroup\<close> with its name and objects, or
  a layer of any other class.
\<close>

datatype map_layer = TiledObjectGroup string "tmx_object list" | OtherLayer string

type_synonym tmx_map = "map_layer list"

fun extractLoop :: "map_layer list \<Rightarrow> tile set \<Rightarrow> tile set" where
  "extractLoop [] collidableElements = collidableElements"
| "extractLoop (TiledObjectGroup name objs # layers) collidableElements =
     extractLoop layers
       (if name = ''collision_boundaries''
        then collidableElements \<union>
               (\<lambda>obj. (obj_x obj - 500, obj_width obj, obj_y obj - 330, obj_height obj)) ` set objs
        else collidableElements)"
| "extractLoop (OtherLayer name # layers) collidableElements =
     extractLoop layers collidableElements"

definition extractCollidableTilesOptimized :: "tmx_map \<Rightarrow> tile set" where
  "extractCollidableTilesOptimized tmxMapData = extractLoop tmxMapData {}"

definition tileCenter :: "tile \<Rightarrow> point" where
  "tileCenter = (\<lambda>(x, width, y, height).
     (of_int x + of_int width / 2, of_int y - of_int height / 2))"

text \<open>
  \<open>scipy.spatial.KDTree\<close> is a library object: it is represented by the data and the
  leaf size it was constructed from. Whether the constructor raises on a given point
  list is the parameter \<open>kdRaises\<close>.
\<close>

datatype kdtree = KDTree "point list" nat

text \<open>A dict comprehension: a later pair with the same key replaces an earlier one.\<close>

definition dictOf :: "('k \<times> 'v) list \<Rightarrow> ('k \<rightharpoonup> 'v)" where
  "dictOf kvs = fold (\<lambda>(k, v) m. m(k \<mapsto> v)) kvs Map.empty"

definition buildOptimizedCollisionKdTree ::
  "(point list \<Rightarrow> py_error option) \<Rightarrow> (tile set \<Rightarrow> tile list) \<Rightarrow> tile set
     \<Rightarrow> py_error + (kdtree \<times> (point \<rightharpoonup> tile))" where
  "buildOptimizedCollisionKdTree kdRaises order collidableElements =
     (let collisionPositions = map tileCenter (order collidableElements) in
      case kdRaises collisionPositions of
        Some e \<Rightarrow> Inl e
      | None \<Rightarrow>
          Inr (KDTree collisionPositions 16,
               dictOf (zip collisionPositions (order collidableElements))))"

subsection \<open>The player grid\<close>

text \<open>
  Modelled from the spec: \<open>EnhancedPlayerGrid\<close> of \<open>src/spatial/optimized_player_grid\<close>,
  which is not among the source files. Section 3 and 4.2 of the specification: a bucket
  keyed by \<open>(floor(x/cellSize), floor(y/cellSize))\<close> holds the entity ids present, and
  adding an entity removes it from any other cell in the same operation.
\<close>

record grid =
  cellSize :: int
  cells :: "int \<times> int \<Rightarrow> int set"

definition EnhancedPlayerGrid :: "int \<Rightarrow> grid" where
  "EnhancedPlayerGrid n = \<lparr>cellSize = n, cells = (\<lambda>c. {})\<rparr>"

definition cellOf :: "grid \<Rightarrow> int \<Rightarrow> int \<Rightarrow> int \<times> int" where
  "cellOf g x y = (x div cellSize g, y div cellSize g)"

definition add_player :: "grid \<Rightarrow> int \<Rightarrow> int \<Rightarrow> int \<Rightarrow> grid" where
  "add_player g pid x y =
     g\<lparr>cells := (\<lambda>c. if c = cellOf g x y then insert pid (cells g c) else cells g c - {pid})\<rparr>"

subsection \<open>Bots and the server object\<close>

text \<open>
  Modelled from the spec: \<open>EnhancedBot\<close> of \<open>src/entities/enhanced_bot_manager\<close>, which is
  not among the source files. The record has the attributes the server reads; the
  constructor is a parameter (\<open>newBot\<close> below).
\<close>

record bot =
  currentX :: int
  currentY :: int
  isAggressive :: bool
  isCurrentlyMoving :: bool
  isCurrentlyEngaged :: bool
  targetX :: int
  targetY :: int

record server_configuration =
  loadBalancerPort :: int
  udpBroadcastPort :: int
  gameServerPort :: int
  maxConcurrentPlayers :: int
  botSpawnRadius :: int
  mapCollisionRadius :: int
  tickRate :: int
  enableAdvancedLogging :: bool
  spatialGridCellSize :: int

definition ServerConfiguration :: server_configuration where
  "ServerConfiguration =
     \<lparr>loadBalancerPort = 5002, udpBroadcastPort = 5003, gameServerPort = 5000,
      maxConcurrentPlayers = 100, botSpawnRadius = 600, mapCollisionRadius = 80,
      tickRate = 20, enableAdvancedLogging = True, spatialGridCellSize = 1000\<rparr>"

text \<open>
  The attributes of \<open>EnhancedGameServer\<close> that the modelled methods read or write.
  \<open>enhancedBotManager\<close> is an association list because \<open>_processEnhancedBotMovement\<close>
  walks it in insertion order; \<open>loadBalancerSocket\<close> counts the sockets created for the
  load-balancer link.
\<close>

record server =
  serverConfig :: server_configuration
  serverInstanceId :: int
  serverRegionIndex :: int
  isConnectedToLoadBalancer :: bool
  serverBoundaryCoordinates :: position
  activePlayerData :: "int \<rightharpoonup> (string \<rightharpoonup> pyval)"
  gameStateUpdates :: "int \<rightharpoonup> (string \<rightharpoonup> pyval)"
  enhancedBotManager :: "(int \<times> bot) list"
  gameMapData :: tmx_map
  spatialCollisionTree :: kdtree
  tilePositionMapping :: "point \<rightharpoonup> tile"
  spatialPlayerGrid :: grid
  loadBalancerSocket :: nat

subsection \<open>Construction (\<open>__init__\<close>, \<open>_initializeSpatialSystems\<close>) and the entry point\<close>

text \<open>
  What construction gets from outside the program: whether creating and binding the
  sockets fails, whether the primary map file exists, what \<open>pytmx.TiledMap\<close> does with a
  path, whether the KD-tree constructor raises, and the iteration order of the tile set.
\<close>

record init_env =
  socketFailure :: "py_error option"
  assetsMapExists :: bool
  tiledMap :: "string \<Rightarrow> py_error + tmx_map"
  kdRaisesOn :: "point list \<Rightarrow> py_error option"
  tileOrder :: "tile set \<Rightarrow> tile list"

definition gameMapPath :: "init_env \<Rightarrow> string" where
  "gameMapPath env =
     (if \<not> assetsMapExists env then ''map/map.tmx'' else ''assets/maps/game_world.tmx'')"

text \<open>
  The \<open>try\<close> block of lines 162 to 185. \<open>hasLogger\<close> says whether \<open>self.logger\<close> is
  set when the method runs: the first \<open>self.logger.info\<close> (line 173) raises
  \<open>AttributeError\<close> otherwise.
\<close>

definition spatialTryBlock ::
  "init_env \<Rightarrow> bool \<Rightarrow> server_configuration
     \<Rightarrow> py_error + (tmx_map \<times> kdtree \<times> (point \<rightharpoonup> tile) \<times> grid)" where
  "spatialTryBlock env hasLogger config =
     (case tiledMap env (gameMapPath env) of
        Inl e \<Rightarrow> Inl e
      | Inr mapData \<Rightarrow>
          if \<not> hasLogger then Inl AttributeError
          else
            (let collidableGameTiles = extractCollidableTilesOptimized mapData in
             case buildOptimizedCollisionKdTree (kdRaisesOn env) (tileOrder env)
                    collidableGameTiles of
               Inl e \<Rightarrow> Inl e
             | Inr (tree, mapping) \<Rightarrow>
                 Inr (mapData, tree, mapping, EnhancedPlayerGrid (spatialGridCellSize config))))"

text \<open>
  The \<open>except Exception\<close> handler of lines 187 to 189 logs through \<open>self.logger\<close> and
  re-raises; without a logger the logging call itself raises \<open>AttributeError\<close>.
\<close>

definition initializeSpatialSystems ::
  "init_env \<Rightarrow> bool \<Rightarrow> server_configuration
     \<Rightarrow> py_error + (tmx_map \<times> kdtree \<times> (point \<rightharpoonup> tile) \<times> grid)" where
  "initializeSpatialSystems env hasLogger config =
     (case spatialTryBlock env hasLogger config of
        Inl spatialError \<Rightarrow> if hasLogger then Inl spatialError else Inl AttributeError
      | Inr systems \<Rightarrow> Inr systems)"

text \<open>
  The attributes as \<open>__init__\<close> assigns them (lines 89 to 111), with the spatial systems
  that \<open>_initializeSpatialSystems\<close> has built.
\<close>

definition initialAttributes ::
  "server_configuration \<Rightarrow> tmx_map \<Rightarrow> kdtree \<Rightarrow> (point \<rightharpoonup> tile) \<Rightarrow> grid \<Rightarrow> server" where
  "initialAttributes config mapData tree mapping playerGrid =
     \<lparr>serverConfig = config, serverInstanceId = 0, serverRegionIndex = 0,
      isConnectedToLoadBalancer = False, serverBoundaryCoordinates = (0, 0),
      activePlayerData = Map.empty, gameStateUpdates = Map.empty,
      enhancedBotManager = [], gameMapData = mapData,
      spatialCollisionTree = tree, tilePositionMapping = mapping,
      spatialPlayerGrid = playerGrid, loadBalancerSocket = 0\<rparr>"

text \<open>
  \<open>__init__\<close>: sockets, plain attributes, locks, spatial systems, protocol handlers,
  logging, in this order. \<open>_configureAdvancedLogging\<close>, which sets \<open>self.logger\<close>, runs
  after \<open>_initializeSpatialSystems\<close>, so the latter runs without a logger.
\<close>

definition EnhancedGameServer :: "init_env \<Rightarrow> server_configuration option \<Rightarrow> py_error + server" where
  "EnhancedGameServer env configuration =
     (let config = (case configuration of None \<Rightarrow> ServerConfiguration | Some c \<Rightarrow> c) in
      case socketFailure env of
        Some e \<Rightarrow> Inl e
      | None \<Rightarrow>
          (case initializeSpatialSystems env False config of
             Inl e \<Rightarrow> Inl e
           | Inr (mapData, tree, mapping, playerGrid) \<Rightarrow>
               Inr (initialAttributes config mapData tree mapping playerGrid)))"

text \<open>
  The \<open>__main__\<close> block: the server is constructed, then \<open>executeServerProtocol\<close> is
  called on it. An exception of the constructor is not caught and ends the process.
\<close>

datatype startup = Aborted py_error | Serving server

definition main :: "init_env \<Rightarrow> startup" where
  "main env =
     (case EnhancedGameServer env (Some ServerConfiguration) of
        Inl e \<Rightarrow> Aborted e
      | Inr enhancedServer \<Rightarrow> Serving enhancedServer)"

subsection \<open>Spawning bots (\<open>spawnEnhancedBotsInRegion\<close>)\<close>

text \<open>
  What spawning gets from outside the program: the iteration order of the position set,
  the entropy of \<open>random.randint\<close> per attempt, the outcome of \<open>random.random() < 0.5\<close>
  per bot, and the constructor of the bot class.
\<close>

record spawn_env =
  positionOrder :: "position set \<Rightarrow> position list"
  randintEntropy :: "int \<Rightarrow> nat \<times> nat"
  randomAggressive :: "int \<Rightarrow> bool"
  newBot :: "int \<Rightarrow> int \<Rightarrow> bool \<Rightarrow> int \<Rightarrow> int \<Rightarrow> kdtree \<Rightarrow> (point \<rightharpoonup> tile) \<Rightarrow> bot"

definition regionBoundaries :: "server \<Rightarrow> position" where
  "regionBoundaries s =
     (let table = [1 \<mapsto> (0, 0),
                   2 \<mapsto> (fst (serverBoundaryCoordinates s), 0),
                   3 \<mapsto> serverBoundaryCoordinates s,
                   4 \<mapsto> (0, snd (serverBoundaryCoordinates s))]
      in case table (serverRegionIndex s) of None \<Rightarrow> (0, 0) | Some b \<Rightarrow> b)"

text \<open>
  The \<open>for\<close> loop of lines 307 to 327; \<open>botIndex\<close> is the counter of \<open>enumerate\<close>. The
  three dictionaries are written under their locks, then the grid under its own.
\<close>

fun spawnBots :: "spawn_env \<Rightarrow> int \<Rightarrow> position list \<Rightarrow> server \<Rightarrow> server" where
  "spawnBots env botIndex [] s = s"
| "spawnBots env botIndex ((spawnX, spawnY) # spawnPositions) s =
     (let enhancedBot = newBot env spawnX spawnY (randomAggressive env botIndex) 0 0
                          (spatialCollisionTree s) (tilePositionMapping s);
          s1 = s\<lparr>activePlayerData := (activePlayerData s)(botIndex \<mapsto>
                      [''x'' \<mapsto> IntV spawnX, ''y'' \<mapsto> IntV spawnY,
                       ''type'' \<mapsto> BoolV (isAggressive enhancedBot),
                       ''angle'' \<mapsto> IntV 0, ''health'' \<mapsto> IntV 100]),
                 gameStateUpdates := (gameStateUpdates s)(botIndex \<mapsto> Map.empty),
                 enhancedBotManager := AList.update botIndex enhancedBot (enhancedBotManager s)\<rparr>;
          s2 = s1\<lparr>spatialPlayerGrid := add_player (spatialPlayerGrid s1) botIndex spawnX spawnY\<rparr>
      in spawnBots env (botIndex + 1) spawnPositions s2)"

definition spawnEnhancedBotsInRegion :: "spawn_env \<Rightarrow> int \<Rightarrow> server \<Rightarrow> py_error + server" where
  "spawnEnhancedBotsInRegion env numberOfBots s =
     (case generateOptimizedSpawnPositions (positionOrder env) (serverBoundaryCoordinates s)
             (randintEntropy env) numberOfBots (regionBoundaries s) of
        Inl e \<Rightarrow> Inl e
      | Inr spawnPositions \<Rightarrow> Inr (spawnBots env 0 spawnPositions s))"

subsection \<open>Bot ticks (\<open>_processEnhancedBotMovement\<close>, \<open>_processEnhancedBotCombat\<close>)\<close>

text \<open>\<open>d[k][f] = v\<close> on a dictionary of dictionaries: \<open>KeyError\<close> when \<open>k\<close> is absent.\<close>

definition setItem ::
  "(int \<rightharpoonup> (string \<rightharpoonup> pyval)) \<Rightarrow> int \<Rightarrow> string \<Rightarrow> pyval
     \<Rightarrow> py_error + (int \<rightharpoonup> (string \<rightharpoonup> pyval))" where
  "setItem d k f v =
     (case d k of None \<Rightarrow> Inl KeyError | Some inner \<Rightarrow> Inr (d(k \<mapsto> inner(f \<mapsto> v))))"

text \<open>
  A critical section is one \<open>with self.thread_safe_operation(...)\<close> block: the code
  between acquiring its locks and releasing them. \<open>StoreUpdate\<close> is lines 376 to 380
  (\<open>playerDataLock\<close>, \<open>gameStateUpdateLock\<close>), \<open>GridUpdate\<close> lines 383 and 384
  (\<open>spatialIndexLock\<close>), \<open>CombatUpdate\<close> lines 393 to 397 (\<open>gameStateUpdateLock\<close>).
  A section that raises keeps the assignments made before the exception.
\<close>

datatype critical_section = StoreUpdate int bot | GridUpdate int bot | CombatUpdate int bot

fun runSection :: "critical_section \<Rightarrow> server \<Rightarrow> py_error option \<times> server" where
  "runSection (StoreUpdate botId b) s =
     (case setItem (activePlayerData s) botId ''x'' (IntV (currentX b)) of
        Inl e \<Rightarrow> (Some e, s)
      | Inr d1 \<Rightarrow>
          (case setItem d1 botId ''y'' (IntV (currentY b)) of
             Inl e \<Rightarrow> (Some e, s\<lparr>activePlayerData := d1\<rparr>)
           | Inr d2 \<Rightarrow>
               (case setItem (gameStateUpdates s) botId ''x'' (IntV (currentX b)) of
                  Inl e \<Rightarrow> (Some e, s\<lparr>activePlayerData := d2\<rparr>)
                | Inr u1 \<Rightarrow>
                    (case setItem u1 botId ''y'' (IntV (currentY b)) of
                       Inl e \<Rightarrow> (Some e, s\<lparr>activePlayerData := d2, gameStateUpdates := u1\<rparr>)
                     | Inr u2 \<Rightarrow>
                         (None, s\<lparr>activePlayerData := d2, gameStateUpdates := u2\<rparr>)))))"
| "runSection (GridUpdate botId b) s =
     (None, s\<lparr>spatialPlayerGrid :=
                 add_player (spatialPlayerGrid s) botId (currentX b) (currentY b)\<rparr>)"
| "runSection (CombatUpdate botId b) s =
     (case setItem (gameStateUpdates s) botId ''weapon_fire''
             (ListV [currentX b, currentY b, targetX b, targetY b]) of
        Inl e \<Rightarrow> (Some e, s)
      | Inr u \<Rightarrow> (None, s\<lparr>gameStateUpdates := u\<rparr>))"

text \<open>The sections run one after the other; an exception ends the method.\<close>

fun runSections :: "critical_section list \<Rightarrow> server \<Rightarrow> py_error option \<times> server" where
  "runSections [] s = (None, s)"
| "runSections (c # cs) s =
     (case runSection c s of
        (Some e, s') \<Rightarrow> (Some e, s')
      | (None, s') \<Rightarrow> runSections cs s')"

text \<open>
  The states of the server at the moments the ticking thread holds no lock, in order: the
  state each section leaves. Another thread that takes the locks between two sections
  reads one of these.
\<close>

fun observableStates :: "critical_section list \<Rightarrow> server \<Rightarrow> server list" where
  "observableStates [] s = []"
| "observableStates (c # cs) s =
     (case runSection c s of
        (Some e, s') \<Rightarrow> [s']
      | (None, s') \<Rightarrow> s' # observableStates cs s')"

definition movementSections :: "(int \<times> bot) list \<Rightarrow> critical_section list" where
  "movementSections activeBots =
     concat (map (\<lambda>(botId, enhancedBot).
        if isCurrentlyMoving enhancedBot
        then [StoreUpdate botId enhancedBot, GridUpdate botId enhancedBot] else []) activeBots)"





text \<open>
  Store and grid agree on an entity when the grid holds the id in the cell of the
  position the store records for it.
\<close>

definition storePosition :: "server \<Rightarrow> int \<Rightarrow> position option" where
  "storePosition s i =
     (case activePlayerData s i of
        None \<Rightarrow> None
      | Some d \<Rightarrow>
          (case (d ''x'', d ''y'') of
             (Some (IntV x), Some (IntV y)) \<Rightarrow> Some (x, y)
           | _ \<Rightarrow> None))"

definition gridHolds :: "server \<Rightarrow> int \<Rightarrow> position \<Rightarrow> bool" where
  "gridHolds s i p =
     (i \<in> cells (spatialPlayerGrid s) (cellOf (spatialPlayerGrid s) (fst p) (snd p)))"

definition storeGridAgree :: "server \<Rightarrow> int \<Rightarrow> bool" where
  "storeGridAgree s i = (case storePosition s i of None \<Rightarrow> False | Some p \<Rightarrow> gridHolds s i p)"

subsection \<open>Load-balancer discovery (\<open>_establishLoadBalancerConnection\<close>)\<close>

text \<open>
  What one pass of the discovery loop gets from outside: the outcome of \<open>recvfrom\<close>,
  whether the datagram decodes, and the outcomes of the three helper methods
  \<open>_processLoadBalancerHandshake\<close>, \<open>_sendLoadBalancerAcknowledgment\<close> and
  \<open>_receiveConnectionConfirmation\<close>, whose bodies are not among the source files.
\<close>

record handshake_env =
  recvfrom :: "py_error + string"
  decodes :: bool
  processLoadBalancerHandshake :: "string \<Rightarrow> py_error + bool"
  sendLoadBalancerAcknowledgment :: "py_error option"
  receiveConnectionConfirmation :: "py_error + bool"

datatype exchange_step =
  PacketReceived string | HandshakeAccepted | AcknowledgmentSent | ConfirmationReceived

datatype attempt = Confirmed | Declined | Raised py_error

text \<open>
  The \<open>try\<close> body of lines 441 to 455 up to the assignment of the flag: its result, with
  the steps of the exchange completed before it, in the order the code performs them.
\<close>

definition handshakeAttempt :: "handshake_env \<Rightarrow> attempt \<times> exchange_step list" where
  "handshakeAttempt env =
     (case recvfrom env of
        Inl e \<Rightarrow> (Raised e, [])
      | Inr udpData \<Rightarrow>
          if \<not> decodes env then (Raised UnicodeDecodeError, [PacketReceived udpData])
          else
            (case processLoadBalancerHandshake env udpData of
               Inl e \<Rightarrow> (Raised e, [PacketReceived udpData])
             | Inr accepted \<Rightarrow>
                 if \<not> accepted then (Declined, [PacketReceived udpData])
                 else
                   (case sendLoadBalancerAcknowledgment env of
                      Some e \<Rightarrow> (Raised e, [PacketReceived udpData, HandshakeAccepted])
                    | None \<Rightarrow>
                        (case receiveConnectionConfirmation env of
                           Inl e \<Rightarrow>
                             (Raised e,
                              [PacketReceived udpData, HandshakeAccepted, AcknowledgmentSent])
                         | Inr confirmed \<Rightarrow>
                             if \<not> confirmed
                             then (Declined,
                                   [PacketReceived udpData, HandshakeAccepted, AcknowledgmentSent])
                             else (Confirmed,
                                   [PacketReceived udpData, HandshakeAccepted, AcknowledgmentSent,
                                    ConfirmationReceived])))))"

text \<open>
  One pass of the loop body: the flag is set after a confirmed exchange;
  \<open>socket.timeout\<close> is logged; any other exception replaces the load-balancer socket.
\<close>

definition discoveryIteration :: "handshake_env \<Rightarrow> server \<Rightarrow> server" where
  "discoveryIteration env s =
     (case fst (handshakeAttempt env) of
        Confirmed \<Rightarrow> s\<lparr>isConnectedToLoadBalancer := True\<rparr>
      | Declined \<Rightarrow> s
      | Raised e \<Rightarrow>
          if e = SocketTimeout then s
          else s\<lparr>loadBalancerSocket := Suc (loadBalancerSocket s)\<rparr>)"

text \<open>
  The loop of line 439 over the passes the environment offers. The method returns once
  the flag is set; when the passes are used up with the flag unset it is still waiting
  for a datagram. The number is the count of passes made.
\<close>

datatype progress = Returned | StillDiscovering

fun establishLoadBalancerConnection ::
  "handshake_env list \<Rightarrow> server \<Rightarrow> progress \<times> nat \<times> server" where
  "establishLoadBalancerConnection [] s =
     (if \<not> isConnectedToLoadBalancer s then (StillDiscovering, 0, s) else (Returned, 0, s))"
| "establishLoadBalancerConnection (env # envs) s =
     (if \<not> isConnectedToLoadBalancer s then
        (let s' = discoveryIteration env s in
         if isConnectedToLoadBalancer s' then (Returned, 1, s')
         else (case establishLoadBalancerConnection envs s' of
                 (p, n, s'') \<Rightarrow> (p, Suc n, s'')))
      else (Returned, 0, s))"

definition fullExchange :: "handshake_env \<Rightarrow> bool" where
  "fullExchange env =
     (case recvfrom env of
        Inl e \<Rightarrow> False
      | Inr udpData \<Rightarrow>
          decodes env \<and> processLoadBalancerHandshake env udpData = Inr True \<and>
          sendLoadBalancerAcknowledgment env = None \<and>
          receiveConnectionConfirmation env = Inr True)"

subsection \<open>Load-balancer protocol thread and bot thread\<close>















subsection \<open>Concrete instances\<close>

text \<open>
  A server as construction leaves it, a pass of the discovery loop in which the load
  balancer completes the exchange, a pass in which \<open>recvfrom\<close> times out, and handlers
  that raise.
\<close>

definition exampleServer :: server where
  "exampleServer =
     initialAttributes ServerConfiguration [] (KDTree [] 16) Map.empty (EnhancedPlayerGrid 1000)"

definition acceptingEnv :: handshake_env where
  "acceptingEnv =
     \<lparr>recvfrom = Inr ''SYNC_HANDSHAKE_v2'', decodes = True,
      processLoadBalancerHandshake = (\<lambda>udpData. Inr (udpData = ''SYNC_HANDSHAKE_v2'')),
      sendLoadBalancerAcknowledgment = None,
      receiveConnectionConfirmation = Inr True\<rparr>"

definition timeoutEnv :: handshake_env where
  "timeoutEnv =
     \<lparr>recvfrom = Inl SocketTimeout, decodes = True,
      processLoadBalancerHandshake = (\<lambda>udpData. Inr False),
      sendLoadBalancerAcknowledgment = None,
      receiveConnectionConfirmation = Inr False\<rparr>"


subsection \<open>Vocabulary and instances for the map claims\<close>

text \<open>
  The objects of the layers that \<open>_extractCollidableTilesOptimized\<close> selects, the tuple
  it makes of an object, a map with a repeated rectangle, and a start-up environment whose
  map cannot be loaded.
\<close>

fun collisionObjects :: "tmx_map \<Rightarrow> tmx_object list" where
  "collisionObjects [] = []"
| "collisionObjects (TiledObjectGroup name objs # layers) =
     (if name = ''collision_boundaries'' then objs else []) @ collisionObjects layers"
| "collisionObjects (OtherLayer name # layers) = collisionObjects layers"

definition tileOf :: "tmx_object \<Rightarrow> tile" where
  "tileOf obj = (obj_x obj - 500, obj_width obj, obj_y obj - 330, obj_height obj)"

definition exampleMap :: tmx_map where
  "exampleMap =
     [TiledObjectGroup ''collision_boundaries''
        [\<lparr>obj_x = 500, obj_width = 20, obj_y = 330, obj_height = 10\<rparr>,
         \<lparr>obj_x = 600, obj_width = 30, obj_y = 430, obj_height = 40\<rparr>,
         \<lparr>obj_x = 500, obj_width = 20, obj_y = 330, obj_height = 10\<rparr>],
      OtherLayer ''ground'',
      TiledObjectGroup ''decorations''
        [\<lparr>obj_x = 0, obj_width = 1, obj_y = 0, obj_height = 1\<rparr>]]"

definition missingMapEnv :: init_env where
  "missingMapEnv =
     \<lparr>socketFailure = None, assetsMapExists = False,
      tiledMap = (\<lambda>path. Inl MapLoadError),
      kdRaisesOn = (\<lambda>points. None),
      tileOrder = sorted_list_of_set\<rparr>"

subsection \<open>Instances for the bot claims\<close>

text \<open>
  A bot that spawned at \<open>(0, 0)\<close> and has moved to \<open>(1500, 0)\<close>, and a server that
  still records it at its spawn position in the store and in the grid.
\<close>

definition movedBot :: bot where
  "movedBot =
     \<lparr>currentX = 1500, currentY = 0, isAggressive = False, isCurrentlyMoving = True,
      isCurrentlyEngaged = False, targetX = 0, targetY = 0\<rparr>"

definition tickingServer :: server where
  "tickingServer =
     exampleServer
       \<lparr>activePlayerData :=
          [0 \<mapsto> [''x'' \<mapsto> IntV 0, ''y'' \<mapsto> IntV 0, ''type'' \<mapsto> BoolV False,
                 ''angle'' \<mapsto> IntV 0, ''health'' \<mapsto> IntV 100]],
        gameStateUpdates := [0 \<mapsto> Map.empty],
        enhancedBotManager := [(0, movedBot)],
        spatialPlayerGrid := add_player (EnhancedPlayerGrid 1000) 0 0 0\<rparr>"

subsection \<open>Vocabulary and instances for the spawn claims\<close>

text \<open>
  The bot object that the loop constructs for an index and a position, a spawn
  environment, and a server that has been assigned a region of 2000 by 2000 units.
\<close>

definition spawnedBot :: "spawn_env \<Rightarrow> server \<Rightarrow> int \<Rightarrow> position \<Rightarrow> bot" where
  "spawnedBot env s botIndex p =
     newBot env (fst p) (snd p) (randomAggressive env botIndex) 0 0
       (spatialCollisionTree s) (tilePositionMapping s)"

definition exampleSpawnEnv :: spawn_env where
  "exampleSpawnEnv =
     \<lparr>positionOrder = sorted_list_of_set,
      randintEntropy = (\<lambda>i. (nat (i * 70), nat (i * 30))),
      randomAggressive = (\<lambda>i. False),
      newBot = (\<lambda>x y aggressive tx ty tree mapping.
        \<lparr>currentX = x, currentY = y, isAggressive = aggressive, isCurrentlyMoving = False,
         isCurrentlyEngaged = False, targetX = tx, targetY = ty\<rparr>)\<rparr>"

definition regionServer :: server where
  "regionServer = exampleServer\<lparr>serverBoundaryCoordinates := (2000, 2000)\<rparr>"

subsection \<open>Instance for the empty tile set\<close>

text \<open>
  A constructor that rejects an empty point list, as the constructor of
  \<open>scipy.spatial.KDTree\<close> does for a list that is not two-dimensional.
\<close>

definition rejectsEmpty :: "point list \<Rightarrow> py_error option" where
  "rejectsEmpty points = (if points = [] then Some ValueError else None)"

subsection \<open>Vocabulary and instances for the thread claims\<close>





section \<open>Properties\<close>

subsection \<open>Spawn positions\<close>

lemma randint_range:
  "a \<le> b \<Longrightarrow> randint a b r = Inr (a + int r mod (b - a + 1))"
  by (simp add: randint_def)

lemma tooClose_mono: "tooClose c P \<Longrightarrow> P \<subseteq> Q \<Longrightarrow> tooClose c Q"
  by (auto simp: tooClose_def)

lemma tooClose_self: "tooClose c (insert c P)"
  by (cases c) (simp add: tooClose_def)

lemma separated_insert:
  "separated P \<Longrightarrow> \<not> tooClose c P \<Longrightarrow> separated (insert c P)"
  unfolding separated_def tooClose_def
  by (auto simp: abs_minus_commute not_less split: prod.splits)

lemma candidate_within:
  assumes "0 \<le> fst sbc" "0 \<le> snd sbc"
  shows "withinRegion sbc b (candidateAt sbc rnd b i)"
proof -
  have "int r mod (s + 1) \<le> s" if "0 \<le> s" for r :: nat and s :: int
    using that pos_mod_bound[of "s + 1" "int r"] by simp
  then show ?thesis using assms by (simp add: withinRegion_def candidateAt_def)
qed

lemma spawnSearch_step:
  assumes "0 \<le> fst sbc" "0 \<le> snd sbc" "int (card P) < count" "att < m"
  shows "spawnSearch sbc rnd count m b P att =
           spawnSearch sbc rnd count m b
             (if \<not> tooClose (candidateAt sbc rnd b att) P
              then insert (candidateAt sbc rnd b att) P else P) (att + 1)"
  using assms
  by (subst spawnSearch.simps) (simp add: randint_range candidateAt_def)

lemma spawnSearch_inv:
  assumes ext: "0 \<le> fst sbc" "0 \<le> snd sbc"
  shows "finite P \<Longrightarrow> int (card P) \<le> count \<Longrightarrow> att \<le> m \<Longrightarrow>
     (\<forall>p \<in> P. withinRegion sbc b p) \<Longrightarrow> separated P \<Longrightarrow>
     \<exists>P' att'. spawnSearch sbc rnd count m b P att = Inr (P', att') \<and>
        finite P' \<and> int (card P') \<le> count \<and> att \<le> att' \<and> att' \<le> m \<and> P \<subseteq> P' \<and>
        (\<forall>p \<in> P'. withinRegion sbc b p) \<and> separated P' \<and>
        (\<forall>i. att \<le> i \<and> i < att' \<longrightarrow> tooClose (candidateAt sbc rnd b i) P')"
  using ext
proof (induction sbc rnd count m b P att rule: spawnSearch.induct)
  case (1 sbc rnd count m b P att)
  show ?case
  proof (cases "int (card P) < count \<and> att < m")
    case False
    then show ?thesis using "1.prems" by (subst spawnSearch.simps) auto
  next
    case True
    define c where "c = candidateAt sbc rnd b att"
    define Q where "Q = (if \<not> tooClose c P then insert c P else P)"
    have ext': "0 \<le> fst sbc" "0 \<le> snd sbc" using "1.prems" by auto
    have rx: "randint 0 (fst sbc) (fst (rnd att)) = Inr (int (fst (rnd att)) mod (fst sbc + 1))"
      using ext' by (simp add: randint_range)
    have ry: "randint 0 (snd sbc) (snd (rnd att)) = Inr (int (snd (rnd att)) mod (snd sbc + 1))"
      using ext' by (simp add: randint_range)
    have Qeq: "(if \<not> tooClose (fst b + int (fst (rnd att)) mod (fst sbc + 1),
                               snd b + int (snd (rnd att)) mod (snd sbc + 1)) P
                then insert (fst b + int (fst (rnd att)) mod (fst sbc + 1),
                             snd b + int (snd (rnd att)) mod (snd sbc + 1)) P else P) = Q"
      by (simp add: Q_def c_def candidateAt_def)
    have step: "spawnSearch sbc rnd count m b P att = spawnSearch sbc rnd count m b Q (att + 1)"
      using spawnSearch_step[OF ext', of P count att m rnd b] True by (simp add: Q_def c_def)
    have finQ: "finite Q" using "1.prems" by (simp add: Q_def)
    have cardQ: "int (card Q) \<le> count"
      using "1.prems" True by (simp add: Q_def card_insert_if)
    have attQ: "att + 1 \<le> m" using True by simp
    have inQ: "\<forall>p \<in> Q. withinRegion sbc b p"
      using "1.prems" candidate_within[OF ext', of b rnd att] by (auto simp: Q_def c_def)
    have sepQ: "separated Q"
      using "1.prems" by (auto simp: Q_def intro: separated_insert)
    have PQ: "P \<subseteq> Q" by (auto simp: Q_def)
    have cQ: "tooClose c Q" by (auto simp: Q_def tooClose_self)
    from "1.IH"[OF True rx ry refl refl, unfolded Qeq, OF finQ cardQ attQ inQ sepQ ext']
    obtain P' att' where res: "spawnSearch sbc rnd count m b Q (att + 1) = Inr (P', att')"
      and fin: "finite P'" and card: "int (card P') \<le> count" and a1: "att + 1 \<le> att'"
      and a2: "att' \<le> m" and sub: "Q \<subseteq> P'" and win: "\<forall>p \<in> P'. withinRegion sbc b p"
      and sep: "separated P'"
      and rej: "\<forall>i. att + 1 \<le> i \<and> i < att' \<longrightarrow> tooClose (candidateAt sbc rnd b i) P'"
      by blast
    have "tooClose (candidateAt sbc rnd b i) P'" if "att \<le> i" "i < att'" for i
    proof (cases "i = att")
      case True
      then show ?thesis using tooClose_mono[OF cQ sub] by (simp add: c_def)
    next
      case False
      then show ?thesis using rej that by simp
    qed
    then show ?thesis using step res fin card a1 a2 sub PQ win sep by auto
  qed
qed

text \<open>
  Claim C1. For a requested count \<open>N \<ge> 0\<close> and a region with origin \<open>b\<close> and
  non-negative extent \<open>sbc\<close>, the generator returns normally. Its result lists \<open>k\<close>
  distinct positions with \<open>0 \<le> k \<le> N\<close>, each inside the region's rectangle, and any two
  of them are at least 100 units apart on at least one axis. The loop makes at most
  \<open>10 * N\<close> attempts, and a candidate that was drawn and is not in the result lies
  within 100 units of a returned position on both axes.
\<close>

theorem spawn_positions_bounded_and_separated:
  assumes "enumerates order" and "0 \<le> count" and "0 \<le> fst sbc" and "0 \<le> snd sbc"
  shows "\<exists>P attempts.
           spawnSearch sbc rnd count (count * 10) b {} 0 = Inr (P, attempts) \<and>
           generateOptimizedSpawnPositions order sbc rnd count b = Inr (order P) \<and>
           distinct (order P) \<and> set (order P) = P \<and>
           int (length (order P)) \<le> count \<and>
           (\<forall>p \<in> set (order P). withinRegion sbc b p) \<and>
           separated (set (order P)) \<and>
           0 \<le> attempts \<and> attempts \<le> 10 * count \<and>
           (\<forall>i. 0 \<le> i \<and> i < attempts \<and> candidateAt sbc rnd b i \<notin> P
                 \<longrightarrow> tooClose (candidateAt sbc rnd b i) P)"
proof -
  have sep0: "separated {}" by (simp add: separated_def)
  from spawnSearch_inv[OF assms(3) assms(4), of "{}" count 0 "count * 10" b rnd] assms(2) sep0
  obtain P attempts where
    res: "spawnSearch sbc rnd count (count * 10) b {} 0 = Inr (P, attempts)" and
    fin: "finite P" and card: "int (card P) \<le> count" and
    lo: "0 \<le> attempts" and hi: "attempts \<le> count * 10" and
    win: "\<forall>p \<in> P. withinRegion sbc b p" and sep: "separated P" and
    rej: "\<forall>i. 0 \<le> i \<and> i < attempts \<longrightarrow> tooClose (candidateAt sbc rnd b i) P"
    by auto
  have ord: "set (order P) = P" "distinct (order P)"
    using assms(1) fin by (auto simp: enumerates_def)
  have len: "length (order P) = card P"
    using ord distinct_card[of "order P"] by simp
  have gen: "generateOptimizedSpawnPositions order sbc rnd count b = Inr (order P)"
    by (simp add: generateOptimizedSpawnPositions_def res)
  show ?thesis
    using res gen ord len card win sep lo hi rej by (intro exI[of _ P] exI[of _ attempts]) simp
qed

theorem spawn_positions_witness:
  "enumerates (sorted_list_of_set :: position set \<Rightarrow> position list) \<and>
   (0::int) \<le> 2 \<and> (0::int) \<le> fst (2000, 2000) \<and> (0::int) \<le> snd (2000, 2000) \<and>
   generateOptimizedSpawnPositions sorted_list_of_set (2000, 2000)
       (\<lambda>i. (nat (i * 70), nat (i * 30))) 2 (0, 0) = Inr [(0, 0), (140, 60)] \<and>
   (\<exists>P attempts.
      spawnSearch (2000, 2000) (\<lambda>i. (nat (i * 70), nat (i * 30))) 2 (2 * 10) (0, 0) {} 0
        = Inr (P, attempts) \<and>
      int (length (sorted_list_of_set P)) \<le> 2 \<and> separated (set (sorted_list_of_set P)) \<and>
      attempts \<le> 10 * 2)"
proof -
  have h1: "enumerates (sorted_list_of_set :: position set \<Rightarrow> position list)"
    by (simp add: enumerates_def)
  have h2: "(0::int) \<le> 2" by simp
  have h3: "(0::int) \<le> fst (2000, 2000)" by simp
  have h4: "(0::int) \<le> snd (2000, 2000)" by simp
  have ev: "generateOptimizedSpawnPositions sorted_list_of_set (2000, 2000)
       (\<lambda>i. (nat (i * 70), nat (i * 30))) 2 (0, 0) = Inr [(0, 0), (140, 60)]"
    by (simp add: generateOptimizedSpawnPositions_def spawnSearch.simps randint_def tooClose_def)
  from spawn_positions_bounded_and_separated[OF h1 h2 h3 h4,
         of "\<lambda>i. (nat (i * 70), nat (i * 30))" "(0, 0)"]
  have "\<exists>P attempts.
      spawnSearch (2000, 2000) (\<lambda>i. (nat (i * 70), nat (i * 30))) 2 (2 * 10) (0, 0) {} 0
        = Inr (P, attempts) \<and>
      int (length (sorted_list_of_set P)) \<le> 2 \<and> separated (set (sorted_list_of_set P)) \<and>
      attempts \<le> 10 * 2"
    by blast
  then show ?thesis using h1 h2 h3 h4 ev by blast
qed

subsection \<open>Discovery and the link flag\<close>

lemma attempt_confirmed_iff: "fst (handshakeAttempt env) = Confirmed \<longleftrightarrow> fullExchange env"
  by (auto simp: handshakeAttempt_def fullExchange_def split: sum.splits option.splits)

lemma attempt_confirmed_steps:
  "fullExchange env \<Longrightarrow>
     \<exists>udpData. recvfrom env = Inr udpData \<and>
       handshakeAttempt env =
         (Confirmed, [PacketReceived udpData, HandshakeAccepted, AcknowledgmentSent,
                      ConfirmationReceived])"
  by (auto simp: handshakeAttempt_def fullExchange_def split: sum.splits option.splits)

lemma discoveryIteration_flag:
  "isConnectedToLoadBalancer (discoveryIteration env s) =
     (isConnectedToLoadBalancer s \<or> fullExchange env)"
  using attempt_confirmed_iff[of env]
  by (cases "fst (handshakeAttempt env)") (auto simp: discoveryIteration_def)

lemma establish_no_exchange:
  "\<not> isConnectedToLoadBalancer s \<Longrightarrow> \<forall>env \<in> set envs. \<not> fullExchange env \<Longrightarrow>
     \<exists>s'. establishLoadBalancerConnection envs s = (StillDiscovering, length envs, s') \<and>
          \<not> isConnectedToLoadBalancer s'"
proof (induction envs arbitrary: s)
  case Nil
  then show ?case by simp
next
  case (Cons env envs)
  let ?s = "discoveryIteration env s"
  have nf: "\<not> isConnectedToLoadBalancer ?s"
    using Cons.prems by (simp add: discoveryIteration_flag)
  from Cons.IH[OF nf] Cons.prems(2) obtain s' where
    "establishLoadBalancerConnection envs ?s = (StillDiscovering, length envs, s')"
    "\<not> isConnectedToLoadBalancer s'" by auto
  then show ?case using Cons.prems(1) nf by (simp add: Let_def)
qed

lemma establish_exchange:
  "\<not> isConnectedToLoadBalancer s \<Longrightarrow> \<exists>env \<in> set envs. fullExchange env \<Longrightarrow>
     \<exists>n s'. establishLoadBalancerConnection envs s = (Returned, n, s') \<and>
          isConnectedToLoadBalancer s' \<and> 0 < n \<and> n \<le> length envs \<and>
          fullExchange (envs ! (n - 1)) \<and> (\<forall>i < n - 1. \<not> fullExchange (envs ! i))"
proof (induction envs arbitrary: s)
  case Nil
  then show ?case by simp
next
  case (Cons env envs)
  let ?s = "discoveryIteration env s"
  show ?case
  proof (cases "fullExchange env")
    case True
    then have "isConnectedToLoadBalancer ?s" by (simp add: discoveryIteration_flag)
    then show ?thesis using Cons.prems(1) True by (simp add: Let_def)
  next
    case False
    then have nf: "\<not> isConnectedToLoadBalancer ?s"
      using Cons.prems by (simp add: discoveryIteration_flag)
    have ex: "\<exists>env \<in> set envs. fullExchange env" using Cons.prems(2) False by auto
    from Cons.IH[OF nf ex] obtain n s' where
      r: "establishLoadBalancerConnection envs ?s = (Returned, n, s')"
      and c: "isConnectedToLoadBalancer s'" and n: "0 < n" "n \<le> length envs"
      and f: "fullExchange (envs ! (n - 1))" and g: "\<forall>i < n - 1. \<not> fullExchange (envs ! i)"
      by blast
    have "\<forall>i < Suc n - 1. \<not> fullExchange ((env # envs) ! i)"
      using g False n by (auto simp: nth_Cons split: nat.splits)
    moreover have "fullExchange ((env # envs) ! (Suc n - 1))" using f n by (auto simp: nth_Cons split: nat.splits)
    ultimately show ?thesis using Cons.prems(1) nf r c n
      by (intro exI[of _ "Suc n"] exI[of _ s']) (simp add: Let_def)
  qed
qed

text \<open>
  Claim C2. Starting a pass of the discovery loop with the flag unset, the flag is set
  by that pass exactly when the whole exchange completes: a datagram is received and
  decoded, \<open>_processLoadBalancerHandshake\<close> accepts it, the acknowledgment is sent and
  \<open>_receiveConnectionConfirmation\<close> confirms, in this order. When any step fails, raises
  or times out the flag stays unset and the loop makes its next pass; over any number
  of passes the method returns with the flag set at the first pass that completes the
  exchange, and is still discovering with the flag unset when none does.
\<close>

theorem link_confirmed_only_by_full_exchange:
  assumes "\<not> isConnectedToLoadBalancer s"
  shows "isConnectedToLoadBalancer (discoveryIteration env s) = fullExchange env \<and>
    (fullExchange env \<longrightarrow>
       (\<exists>udpData. recvfrom env = Inr udpData \<and>
          handshakeAttempt env =
            (Confirmed, [PacketReceived udpData, HandshakeAccepted, AcknowledgmentSent,
                         ConfirmationReceived]))) \<and>
    (\<not> fullExchange env \<longrightarrow>
       establishLoadBalancerConnection (env # envs) s =
         (case establishLoadBalancerConnection envs (discoveryIteration env s) of
            (p, n, s') \<Rightarrow> (p, Suc n, s'))) \<and>
    ((\<forall>e \<in> set envs. \<not> fullExchange e) \<longrightarrow>
       (\<exists>s'. establishLoadBalancerConnection envs s = (StillDiscovering, length envs, s') \<and>
             \<not> isConnectedToLoadBalancer s')) \<and>
    ((\<exists>e \<in> set envs. fullExchange e) \<longrightarrow>
       (\<exists>n s'. establishLoadBalancerConnection envs s = (Returned, n, s') \<and>
          isConnectedToLoadBalancer s' \<and> 0 < n \<and> n \<le> length envs \<and>
          fullExchange (envs ! (n - 1)) \<and> (\<forall>i < n - 1. \<not> fullExchange (envs ! i))))"
proof (intro conjI impI)
  show "isConnectedToLoadBalancer (discoveryIteration env s) = fullExchange env"
    using assms by (simp add: discoveryIteration_flag)
next
  assume "fullExchange env"
  then show "\<exists>udpData. recvfrom env = Inr udpData \<and>
          handshakeAttempt env =
            (Confirmed, [PacketReceived udpData, HandshakeAccepted, AcknowledgmentSent,
                         ConfirmationReceived])"
    by (rule attempt_confirmed_steps)
next
  assume "\<not> fullExchange env"
  then have "\<not> isConnectedToLoadBalancer (discoveryIteration env s)"
    using assms by (simp add: discoveryIteration_flag)
  then show "establishLoadBalancerConnection (env # envs) s =
         (case establishLoadBalancerConnection envs (discoveryIteration env s) of
            (p, n, s') \<Rightarrow> (p, Suc n, s'))"
    using assms by (simp add: Let_def)
next
  assume "\<forall>e \<in> set envs. \<not> fullExchange e"
  then show "\<exists>s'. establishLoadBalancerConnection envs s = (StillDiscovering, length envs, s') \<and>
             \<not> isConnectedToLoadBalancer s'"
    using assms establish_no_exchange by blast
next
  assume "\<exists>e \<in> set envs. fullExchange e"
  then show "\<exists>n s'. establishLoadBalancerConnection envs s = (Returned, n, s') \<and>
          isConnectedToLoadBalancer s' \<and> 0 < n \<and> n \<le> length envs \<and>
          fullExchange (envs ! (n - 1)) \<and> (\<forall>i < n - 1. \<not> fullExchange (envs ! i))"
    using assms establish_exchange by blast
qed

theorem link_confirmed_witness:
  "\<not> isConnectedToLoadBalancer exampleServer \<and>
   fullExchange acceptingEnv \<and> \<not> fullExchange timeoutEnv \<and>
   isConnectedToLoadBalancer (discoveryIteration acceptingEnv exampleServer) \<and>
   \<not> isConnectedToLoadBalancer (discoveryIteration timeoutEnv exampleServer) \<and>
   handshakeAttempt acceptingEnv =
     (Confirmed, [PacketReceived ''SYNC_HANDSHAKE_v2'', HandshakeAccepted, AcknowledgmentSent,
                  ConfirmationReceived]) \<and>
   (\<exists>s'. establishLoadBalancerConnection [timeoutEnv, timeoutEnv] exampleServer =
            (StillDiscovering, 2, s') \<and> \<not> isConnectedToLoadBalancer s') \<and>
   (\<exists>s'. establishLoadBalancerConnection [timeoutEnv, acceptingEnv] exampleServer =
            (Returned, 2, s') \<and> isConnectedToLoadBalancer s')"
proof -
  have h: "\<not> isConnectedToLoadBalancer exampleServer"
    by (simp add: exampleServer_def initialAttributes_def)
  have a: "fullExchange acceptingEnv" by (simp add: fullExchange_def acceptingEnv_def)
  have t: "\<not> fullExchange timeoutEnv" by (simp add: fullExchange_def timeoutEnv_def)
  note ok = link_confirmed_only_by_full_exchange[OF h, of acceptingEnv "[]"]
  note no = link_confirmed_only_by_full_exchange[OF h, of timeoutEnv "[timeoutEnv, timeoutEnv]"]
  note mix = link_confirmed_only_by_full_exchange[OF h, of timeoutEnv "[timeoutEnv, acceptingEnv]"]
  have 1: "isConnectedToLoadBalancer (discoveryIteration acceptingEnv exampleServer)"
    using ok a by (simp del: establishLoadBalancerConnection.simps)
  have 2: "\<not> isConnectedToLoadBalancer (discoveryIteration timeoutEnv exampleServer)"
    using no t by (simp del: establishLoadBalancerConnection.simps)
  have 3: "handshakeAttempt acceptingEnv =
     (Confirmed, [PacketReceived ''SYNC_HANDSHAKE_v2'', HandshakeAccepted, AcknowledgmentSent,
                  ConfirmationReceived])"
    using ok a by (simp add: acceptingEnv_def del: establishLoadBalancerConnection.simps)
  have 4: "\<exists>s'. establishLoadBalancerConnection [timeoutEnv, timeoutEnv] exampleServer =
            (StillDiscovering, 2, s') \<and> \<not> isConnectedToLoadBalancer s'"
    using no t by (simp add: numeral_2_eq_2 del: establishLoadBalancerConnection.simps)
  have 5: "\<exists>s'. establishLoadBalancerConnection [timeoutEnv, acceptingEnv] exampleServer =
            (Returned, 2, s') \<and> isConnectedToLoadBalancer s'"
  proof -
    from mix a have "\<exists>n s'. establishLoadBalancerConnection [timeoutEnv, acceptingEnv] exampleServer
         = (Returned, n, s') \<and> isConnectedToLoadBalancer s' \<and> 0 < n \<and> n \<le> 2 \<and>
         fullExchange ([timeoutEnv, acceptingEnv] ! (n - 1))"
      by (auto simp add: numeral_2_eq_2 simp del: establishLoadBalancerConnection.simps)
    then obtain n s' where r: "establishLoadBalancerConnection [timeoutEnv, acceptingEnv] exampleServer
         = (Returned, n, s')" and c: "isConnectedToLoadBalancer s'" and n: "0 < n" "n \<le> 2"
      and f: "fullExchange ([timeoutEnv, acceptingEnv] ! (n - 1))" by blast
    have "n = 2"
    proof (rule ccontr)
      assume "n \<noteq> 2"
      then have "n = 1" using n by simp
      then show False using f t by simp
    qed
    then show ?thesis using r c by blast
  qed
  show ?thesis using h a t 1 2 3 4 5 by blast
qed

subsection \<open>Start-up without a map\<close>

lemma spatialTryBlock_map_failure:
  "tiledMap env (gameMapPath env) = Inl e \<Longrightarrow> spatialTryBlock env hasLogger config = Inl e"
  by (simp add: spatialTryBlock_def)

lemma initializeSpatialSystems_without_logger:
  "initializeSpatialSystems env False config = Inl AttributeError"
  by (simp add: initializeSpatialSystems_def spatialTryBlock_def split: sum.splits)

lemma construction_never_completes:
  "\<exists>e. EnhancedGameServer env configuration = Inl e"
  by (simp add: EnhancedGameServer_def initializeSpatialSystems_without_logger Let_def
      split: option.splits)

text \<open>
  Claim C9. When \<open>pytmx.TiledMap\<close> raises on the map file (missing or corrupt input),
  \<open>_initializeSpatialSystems\<close> raises: the same error when a logger is set, and
  \<open>AttributeError\<close> from the logging call of the handler when none is, which is the
  case inside \<open>__init__\<close>. The constructor raises, and the entry point aborts without
  calling \<open>executeServerProtocol\<close>.
\<close>

theorem map_failure_aborts_startup:
  assumes "tiledMap env (gameMapPath env) = Inl e"
  shows "initializeSpatialSystems env True config = Inl e \<and>
         initializeSpatialSystems env False config = Inl AttributeError \<and>
         (\<exists>e'. EnhancedGameServer env configuration = Inl e') \<and>
         (\<exists>e'. main env = Aborted e') \<and>
         (\<forall>s. main env \<noteq> Serving s)"
proof -
  have 1: "initializeSpatialSystems env True config = Inl e"
    using assms by (simp add: initializeSpatialSystems_def spatialTryBlock_map_failure)
  obtain e' where c: "EnhancedGameServer env (Some ServerConfiguration) = Inl e'"
    using construction_never_completes by blast
  have "main env = Aborted e'" by (simp add: main_def c)
  then show ?thesis
    using 1 initializeSpatialSystems_without_logger construction_never_completes by auto
qed

theorem map_failure_witness:
  "tiledMap missingMapEnv (gameMapPath missingMapEnv) = Inl MapLoadError \<and>
   initializeSpatialSystems missingMapEnv True ServerConfiguration = Inl MapLoadError \<and>
   main missingMapEnv = Aborted AttributeError"
proof -
  have h: "tiledMap missingMapEnv (gameMapPath missingMapEnv) = Inl MapLoadError"
    by (simp add: missingMapEnv_def)
  have m: "main missingMapEnv = Aborted AttributeError"
    by (simp add: main_def EnhancedGameServer_def initializeSpatialSystems_def
          spatialTryBlock_def missingMapEnv_def)
  from map_failure_aborts_startup[OF h, of ServerConfiguration]
  have "initializeSpatialSystems missingMapEnv True ServerConfiguration = Inl MapLoadError"
    by blast
  then show ?thesis using h m by blast
qed

subsection \<open>The points of the spatial index\<close>

lemma extractLoop_union:
  "extractLoop layers acc = acc \<union> tileOf ` set (collisionObjects layers)"
proof (induction layers acc rule: extractLoop.induct)
  case (2 name objs layers acc)
  then show ?case by (auto simp: tileOf_def)
qed simp_all

lemma extract_tiles: "extractCollidableTilesOptimized m = tileOf ` set (collisionObjects m)"
  by (simp add: extractCollidableTilesOptimized_def extractLoop_union)

lemma extract_finite: "finite (extractCollidableTilesOptimized m)"
  by (simp add: extract_tiles)

text \<open>
  Claim C4. The tile set is the set of tuples made of the objects of the collision
  layers, so a rectangle that occurs several times is one element. When the index is
  built, the points handed to the KD-tree are the centres
  \<open>(x + width/2, y - height/2)\<close> of the tiles, one point for each tile of the set.
\<close>

theorem index_points_are_tile_centers:
  assumes "enumerates order"
    and "buildOptimizedCollisionKdTree kdRaises order (extractCollidableTilesOptimized m)
           = Inr (KDTree points leafsize, mapping)"
  shows "points = map tileCenter (order (extractCollidableTilesOptimized m)) \<and>
         distinct (order (extractCollidableTilesOptimized m)) \<and>
         set (order (extractCollidableTilesOptimized m)) = tileOf ` set (collisionObjects m) \<and>
         length points = card (tileOf ` set (collisionObjects m)) \<and>
         set points =
           (\<lambda>(x, width, y, height). (of_int x + of_int width / 2, of_int y - of_int height / 2))
             ` extractCollidableTilesOptimized m"
proof -
  let ?T = "extractCollidableTilesOptimized m"
  have ord: "set (order ?T) = ?T" "distinct (order ?T)"
    using assms(1) extract_finite[of m] by (auto simp: enumerates_def)
  have pts: "points = map tileCenter (order ?T)"
    using assms(2) by (simp add: buildOptimizedCollisionKdTree_def Let_def split: option.splits)
  have len: "length points = card ?T"
    using pts ord distinct_card[of "order ?T"] by simp
  have img: "set points = tileCenter ` ?T" using pts ord by simp
  have tc: "tileCenter = (\<lambda>(x, width, y, height).
      (of_int x + of_int width / 2, of_int y - of_int height / 2))"
    by (simp add: tileCenter_def)
  show ?thesis using pts ord len img extract_tiles[of m] unfolding tc by simp
qed

lemma example_tiles:
  "extractCollidableTilesOptimized exampleMap = {(0, 20, 0, 10), (100, 30, 100, 40)}"
  by (auto simp: extractCollidableTilesOptimized_def exampleMap_def)

lemma example_order: "sorted_list_of_set {(0::int, 20::int, 0::int, 10::int), (100, 30, 100, 40)} = [(0, 20, 0, 10), (100, 30, 100, 40)]"
  by simp

theorem index_points_witness:
  "enumerates (sorted_list_of_set :: tile set \<Rightarrow> tile list) \<and>
   buildOptimizedCollisionKdTree (\<lambda>points. None) sorted_list_of_set
       (extractCollidableTilesOptimized exampleMap)
     = Inr (KDTree [(10, - 5), (115, 80)] 16,
            dictOf [((10, - 5), (0, 20, 0, 10)), ((115, 80), (100, 30, 100, 40))]) \<and>
   [(10, - 5), (115, 80)] =
     map tileCenter (sorted_list_of_set (extractCollidableTilesOptimized exampleMap)) \<and>
   length [(10 :: rat, - 5 :: rat), (115, 80)] = card (tileOf ` set (collisionObjects exampleMap)) \<and>
   length (collisionObjects exampleMap) = 3"
proof -
  have h1: "enumerates (sorted_list_of_set :: tile set \<Rightarrow> tile list)"
    by (simp add: enumerates_def)
  have h2: "buildOptimizedCollisionKdTree (\<lambda>points. None) sorted_list_of_set
       (extractCollidableTilesOptimized exampleMap)
     = Inr (KDTree [(10, - 5), (115, 80)] 16,
            dictOf [((10, - 5), (0, 20, 0, 10)), ((115, 80), (100, 30, 100, 40))])"
    by (simp add: buildOptimizedCollisionKdTree_def example_tiles tileCenter_def)
  have n: "length (collisionObjects exampleMap) = 3" by (simp add: exampleMap_def)
  note th = index_points_are_tile_centers[OF h1 h2]
  from th have c1: "[(10, - 5), (115, 80)] =
     map tileCenter (sorted_list_of_set (extractCollidableTilesOptimized exampleMap))"
    by blast
  from th have c2: "length [(10 :: rat, - 5 :: rat), (115, 80)] =
     card (tileOf ` set (collisionObjects exampleMap))"
    by blast
  show ?thesis using h1 h2 c1 c2 n by blast
qed

subsection \<open>Bot movement: store first, grid second\<close>

lemma storePosition_after_set:
  "storePosition (s\<lparr>activePlayerData := (activePlayerData s)(i \<mapsto> d(''x'' \<mapsto> IntV x, ''y'' \<mapsto> IntV y)),
                    gameStateUpdates := g\<rparr>) i = Some (x, y)"
  by (simp add: storePosition_def)

lemma gridHolds_add_player:
  "gridHolds (s\<lparr>spatialPlayerGrid := add_player (spatialPlayerGrid s) i x y\<rparr>) i (x, y)"
  by (simp add: gridHolds_def add_player_def cellOf_def)

lemma runSection_store_update:
  assumes "activePlayerData s botId = Some d" and "gameStateUpdates s botId = Some u"
  shows "runSection (StoreUpdate botId b) s =
     (None, s\<lparr>activePlayerData := (activePlayerData s)(botId \<mapsto>
                  d(''x'' \<mapsto> IntV (currentX b), ''y'' \<mapsto> IntV (currentY b))),
               gameStateUpdates := (gameStateUpdates s)(botId \<mapsto>
                  u(''x'' \<mapsto> IntV (currentX b), ''y'' \<mapsto> IntV (currentY b)))\<rparr>)"
  using assms by (simp add: setItem_def)

text \<open>
  Claim C7, as the code has it. For a moving bot whose id is in \<open>activePlayerData\<close> and
  in \<open>gameStateUpdates\<close>, a tick runs two critical sections. The first writes the new
  position to the store and to the delta accumulator together and leaves the grid as it
  was; the second adds the bot to the grid. After the first an observer sees the new
  position in the store only; after the second store and grid agree.
\<close>

theorem bot_position_store_then_grid:
  assumes "activePlayerData s botId = Some d" and "gameStateUpdates s botId = Some u"
    and "isCurrentlyMoving b"
  shows "movementSections [(botId, b)] = [StoreUpdate botId b, GridUpdate botId b] \<and>
    (\<exists>s1 s2.
       observableStates [StoreUpdate botId b, GridUpdate botId b] s = [s1, s2] \<and>
       runSections [StoreUpdate botId b, GridUpdate botId b] s = (None, s2) \<and>
       storePosition s1 botId = Some (currentX b, currentY b) \<and>
       gameStateUpdates s1 botId =
         Some (u(''x'' \<mapsto> IntV (currentX b), ''y'' \<mapsto> IntV (currentY b))) \<and>
       spatialPlayerGrid s1 = spatialPlayerGrid s \<and>
       activePlayerData s2 = activePlayerData s1 \<and>
       gameStateUpdates s2 = gameStateUpdates s1 \<and>
       spatialPlayerGrid s2 =
         add_player (spatialPlayerGrid s) botId (currentX b) (currentY b) \<and>
       storePosition s2 botId = Some (currentX b, currentY b) \<and>
       gridHolds s2 botId (currentX b, currentY b) \<and>
       storeGridAgree s2 botId)"
proof -
  let ?s1 = "s\<lparr>activePlayerData := (activePlayerData s)(botId \<mapsto>
                  d(''x'' \<mapsto> IntV (currentX b), ''y'' \<mapsto> IntV (currentY b))),
               gameStateUpdates := (gameStateUpdates s)(botId \<mapsto>
                  u(''x'' \<mapsto> IntV (currentX b), ''y'' \<mapsto> IntV (currentY b)))\<rparr>"
  let ?s2 = "?s1\<lparr>spatialPlayerGrid :=
                 add_player (spatialPlayerGrid ?s1) botId (currentX b) (currentY b)\<rparr>"
  have st: "runSection (StoreUpdate botId b) s = (None, ?s1)"
    using runSection_store_update[OF assms(1) assms(2)] .
  have gr: "runSection (GridUpdate botId b) ?s1 = (None, ?s2)" by simp
  have obs: "observableStates [StoreUpdate botId b, GridUpdate botId b] s = [?s1, ?s2]"
    using st gr by (simp del: runSection.simps)
  have run: "runSections [StoreUpdate botId b, GridUpdate botId b] s = (None, ?s2)"
    using st gr by (simp del: runSection.simps)
  have p1: "storePosition ?s1 botId = Some (currentX b, currentY b)"
    by (rule storePosition_after_set)
  have p2: "storePosition ?s2 botId = Some (currentX b, currentY b)"
    by (simp add: storePosition_def)
  have g2: "gridHolds ?s2 botId (currentX b, currentY b)"
    by (rule gridHolds_add_player)
  have ag: "storeGridAgree ?s2 botId"
    using p2 g2 by (simp add: storeGridAgree_def)
  have ms: "movementSections [(botId, b)] = [StoreUpdate botId b, GridUpdate botId b]"
    using assms(3) by (simp add: movementSections_def)
  have rest: "gameStateUpdates ?s1 botId =
         Some (u(''x'' \<mapsto> IntV (currentX b), ''y'' \<mapsto> IntV (currentY b)))"
     "spatialPlayerGrid ?s1 = spatialPlayerGrid s"
     "activePlayerData ?s2 = activePlayerData ?s1"
     "gameStateUpdates ?s2 = gameStateUpdates ?s1"
     "spatialPlayerGrid ?s2 = add_player (spatialPlayerGrid s) botId (currentX b) (currentY b)"
    by simp_all
  show ?thesis
    using ms obs run p1 p2 g2 ag rest
    by (intro conjI exI[of _ ?s1] exI[of _ ?s2]) (simp_all only:)
qed

lemma ticking_states:
  "activePlayerData tickingServer 0 =
     Some [''x'' \<mapsto> IntV 0, ''y'' \<mapsto> IntV 0, ''type'' \<mapsto> BoolV False,
           ''angle'' \<mapsto> IntV 0, ''health'' \<mapsto> IntV 100]"
  "gameStateUpdates tickingServer 0 = Some Map.empty"
  "isCurrentlyMoving movedBot"
  "currentX movedBot = 1500" "currentY movedBot = 0"
  "enhancedBotManager tickingServer = [(0, movedBot)]"
  by (simp_all add: tickingServer_def movedBot_def)

theorem bot_position_witness:
  "activePlayerData tickingServer 0 =
     Some [''x'' \<mapsto> IntV 0, ''y'' \<mapsto> IntV 0, ''type'' \<mapsto> BoolV False,
           ''angle'' \<mapsto> IntV 0, ''health'' \<mapsto> IntV 100] \<and>
   gameStateUpdates tickingServer 0 = Some Map.empty \<and>
   isCurrentlyMoving movedBot \<and>
   storeGridAgree tickingServer 0 \<and>
   (\<exists>s1 s2.
       observableStates (movementSections (enhancedBotManager tickingServer)) tickingServer
         = [s1, s2] \<and>
       storePosition s1 0 = Some (1500, 0) \<and>
       spatialPlayerGrid s1 = spatialPlayerGrid tickingServer \<and>
       storePosition s2 0 = Some (1500, 0) \<and> storeGridAgree s2 0)"
proof -
  note th = bot_position_store_then_grid[OF ticking_states(1) ticking_states(2) ticking_states(3)]
  have ag: "storeGridAgree tickingServer 0"
    by (simp add: storeGridAgree_def storePosition_def gridHolds_def tickingServer_def
          add_player_def cellOf_def EnhancedPlayerGrid_def)
  from th have "\<exists>s1 s2.
       observableStates (movementSections (enhancedBotManager tickingServer)) tickingServer
         = [s1, s2] \<and>
       storePosition s1 0 = Some (1500, 0) \<and>
       spatialPlayerGrid s1 = spatialPlayerGrid tickingServer \<and>
       storePosition s2 0 = Some (1500, 0) \<and> storeGridAgree s2 0"
    by (simp only: ticking_states(4,5,6)) blast
  then show ?thesis using ticking_states(1,2,3) ag by blast
qed

text \<open>
  Claim C7, as stated, fails: after the store section of the tick and before the grid
  section, the store records the bot at \<open>(1500, 0)\<close> while the grid does not hold it in
  the cell of that position and still holds it in the cell of \<open>(0, 0)\<close>.
\<close>

theorem bot_position_not_atomic:
  "\<not> (\<forall>s' \<in> set (observableStates (movementSections (enhancedBotManager tickingServer))
                    tickingServer).
        (storePosition s' 0 = Some (1500, 0)) = gridHolds s' 0 (1500, 0))"
proof -
  let ?s1 = "hd (observableStates (movementSections (enhancedBotManager tickingServer))
                   tickingServer)"
  have mem: "?s1 \<in> set (observableStates (movementSections (enhancedBotManager tickingServer))
                   tickingServer)"
    by (simp add: tickingServer_def movedBot_def movementSections_def setItem_def)
  have a: "storePosition ?s1 0 = Some (1500, 0)"
    by (simp add: tickingServer_def movedBot_def movementSections_def setItem_def
          storePosition_def)
  have b: "\<not> gridHolds ?s1 0 (1500, 0)"
    by (simp add: tickingServer_def movedBot_def movementSections_def setItem_def
          gridHolds_def add_player_def cellOf_def EnhancedPlayerGrid_def exampleServer_def
          initialAttributes_def)
  show ?thesis using mem a b by blast
qed

subsection \<open>Spawning fills the four structures\<close>

lemma spawnBots_frame:
  "spatialCollisionTree (spawnBots env k ps s) = spatialCollisionTree s \<and>
   tilePositionMapping (spawnBots env k ps s) = tilePositionMapping s \<and>
   cellSize (spatialPlayerGrid (spawnBots env k ps s)) = cellSize (spatialPlayerGrid s)"
proof (induction ps arbitrary: k s)
  case Nil
  then show ?case by simp
next
  case (Cons p ps)
  obtain x y where p: "p = (x, y)" by (cases p)
  show ?case unfolding p by (simp add: Let_def Cons.IH add_player_def)
qed

lemma spawnBots_outside:
  "j < k \<or> k + int (length ps) \<le> j \<Longrightarrow>
   activePlayerData (spawnBots env k ps s) j = activePlayerData s j \<and>
   gameStateUpdates (spawnBots env k ps s) j = gameStateUpdates s j \<and>
   map_of (enhancedBotManager (spawnBots env k ps s)) j = map_of (enhancedBotManager s) j \<and>
   (\<forall>c. (j \<in> cells (spatialPlayerGrid (spawnBots env k ps s)) c)
          = (j \<in> cells (spatialPlayerGrid s) c))"
proof (induction ps arbitrary: k s)
  case Nil
  then show ?case by simp
next
  case (Cons p ps)
  obtain x y where p: "p = (x, y)" by (cases p)
  have out: "j < k + 1 \<or> k + 1 + int (length ps) \<le> j" and ne: "j \<noteq> k"
    using Cons.prems by auto
  show ?case unfolding p
    using ne by (simp add: Let_def Cons.IH[OF out] update_conv' add_player_def)
qed

lemma spawnBots_inside:
  "i < length ps \<Longrightarrow>
   activePlayerData (spawnBots env k ps s) (k + int i) =
     Some [''x'' \<mapsto> IntV (fst (ps ! i)), ''y'' \<mapsto> IntV (snd (ps ! i)),
           ''type'' \<mapsto> BoolV (isAggressive (spawnedBot env s (k + int i) (ps ! i))),
           ''angle'' \<mapsto> IntV 0, ''health'' \<mapsto> IntV 100] \<and>
   gameStateUpdates (spawnBots env k ps s) (k + int i) = Some Map.empty \<and>
   map_of (enhancedBotManager (spawnBots env k ps s)) (k + int i) =
     Some (spawnedBot env s (k + int i) (ps ! i)) \<and>
   k + int i \<in> cells (spatialPlayerGrid (spawnBots env k ps s))
                  (cellOf (spatialPlayerGrid s) (fst (ps ! i)) (snd (ps ! i)))"
proof (induction ps arbitrary: k s i)
  case Nil
  then show ?case by simp
next
  case (Cons p ps)
  obtain x y where p: "p = (x, y)" by (cases p)
  let ?bot = "newBot env x y (randomAggressive env k) 0 0
                (spatialCollisionTree s) (tilePositionMapping s)"
  let ?s1 = "s\<lparr>activePlayerData := (activePlayerData s)(k \<mapsto>
                  [''x'' \<mapsto> IntV x, ''y'' \<mapsto> IntV y, ''type'' \<mapsto> BoolV (isAggressive ?bot),
                   ''angle'' \<mapsto> IntV 0, ''health'' \<mapsto> IntV 100]),
               gameStateUpdates := (gameStateUpdates s)(k \<mapsto> Map.empty),
               enhancedBotManager := AList.update k ?bot (enhancedBotManager s)\<rparr>"
  let ?s2 = "?s1\<lparr>spatialPlayerGrid := add_player (spatialPlayerGrid ?s1) k x y\<rparr>"
  have step: "spawnBots env k (p # ps) s = spawnBots env (k + 1) ps ?s2"
    unfolding p by (simp add: Let_def)
  show ?case
  proof (cases i)
    case 0
    have out: "k < k + 1 \<or> k + 1 + int (length ps) \<le> k" by simp
    note o = spawnBots_outside[where j = k and k = "k + 1" and ps = ps and env = env
              and s = ?s2, OF out]
    have o1: "activePlayerData (spawnBots env (k + 1) ps ?s2) k = activePlayerData ?s2 k"
      using o by blast
    have o2: "gameStateUpdates (spawnBots env (k + 1) ps ?s2) k = gameStateUpdates ?s2 k"
      using o by blast
    have o3: "map_of (enhancedBotManager (spawnBots env (k + 1) ps ?s2)) k
                = map_of (enhancedBotManager ?s2) k"
      using o by blast
    have o4: "(k \<in> cells (spatialPlayerGrid (spawnBots env (k + 1) ps ?s2)) c)
                = (k \<in> cells (spatialPlayerGrid ?s2) c)" for c
      using o by blast
    have a1: "activePlayerData ?s2 k =
       Some [''x'' \<mapsto> IntV x, ''y'' \<mapsto> IntV y, ''type'' \<mapsto> BoolV (isAggressive ?bot),
             ''angle'' \<mapsto> IntV 0, ''health'' \<mapsto> IntV 100]"
      by simp
    have a2: "gameStateUpdates ?s2 k = Some Map.empty" by simp
    have a3: "map_of (enhancedBotManager ?s2) k = Some ?bot" by (simp add: update_conv')
    have a4: "k \<in> cells (spatialPlayerGrid ?s2) (cellOf (spatialPlayerGrid s) x y)"
      by (simp add: add_player_def cellOf_def)
    have sb: "spawnedBot env s k (x, y) = ?bot" by (simp add: spawnedBot_def)
    show ?thesis
      unfolding 0 p using o1 o2 o3 o4 a1 a2 a3 a4 sb
      by (simp add: Let_def del: fun_upd_apply)
  next
    case (Suc i')
    then have lt: "i' < length ps" using Cons.prems by simp
    have idx: "k + int i = k + 1 + int i'" using Suc by simp
    have bot: "spawnedBot env ?s2 (k + 1 + int i') (ps ! i') = spawnedBot env s (k + int i) ((p # ps) ! i)"
      using Suc by (simp add: spawnedBot_def add.assoc)
    have cell: "cellOf (spatialPlayerGrid ?s2) = cellOf (spatialPlayerGrid s)"
      by (simp add: cellOf_def add_player_def fun_eq_iff)
    show ?thesis
      unfolding p using Cons.IH[OF lt, of "k + 1" ?s2] bot cell
      by (simp add: Suc Let_def p add.assoc del: fun_upd_apply)
  qed
qed


lemma generate_returns:
  assumes "enumerates order" and "0 \<le> count" and "0 \<le> fst sbc" and "0 \<le> snd sbc"
  shows "\<exists>ps. generateOptimizedSpawnPositions order sbc rnd count b = Inr ps \<and>
           distinct ps \<and> int (length ps) \<le> count"
proof -
  have sep0: "separated {}" by (simp add: separated_def)
  from spawnSearch_inv[OF assms(3) assms(4), of "{}" count 0 "count * 10" b rnd] assms(2) sep0
  obtain P attempts where
    res: "spawnSearch sbc rnd count (count * 10) b {} 0 = Inr (P, attempts)" and
    fin: "finite P" and card: "int (card P) \<le> count"
    by auto
  have ord: "set (order P) = P" "distinct (order P)"
    using assms(1) fin by (auto simp: enumerates_def)
  have len: "length (order P) = card P"
    using ord distinct_card[of "order P"] by simp
  have "generateOptimizedSpawnPositions order sbc rnd count b = Inr (order P)"
    by (simp add: generateOptimizedSpawnPositions_def res)
  then show ?thesis using ord len card by auto
qed

lemma in_range_as_index:
  "0 \<le> j \<Longrightarrow> j < int n \<Longrightarrow> \<exists>i < n. j = 0 + int i"
  by (rule exI[of _ "nat j"]) simp

text \<open>
  Claim C10. On a server whose entity dictionaries, bot registry and grid are empty, as
  construction leaves them, and whose region has a non-negative extent,
  \<open>spawnEnhancedBotsInRegion N\<close> with \<open>N \<ge> 0\<close> returns normally. With \<open>k\<close> the number
  of positions generated, \<open>k \<le> N\<close> and the ids in each of the four structures are
  exactly \<open>0, ..., k - 1\<close>. For each id, \<open>activePlayerData\<close> holds the spawn position
  with angle 0 and health 100, \<open>gameStateUpdates\<close> holds an empty delta,
  \<open>enhancedBotManager\<close> holds the bot constructed for that position, and the grid holds
  the id in the cell of the spawn position.
\<close>

theorem spawn_fills_structures_consistently:
  assumes "enumerates (positionOrder env)" and "0 \<le> numberOfBots"
    and "0 \<le> fst (serverBoundaryCoordinates s)" and "0 \<le> snd (serverBoundaryCoordinates s)"
    and "activePlayerData s = Map.empty" and "gameStateUpdates s = Map.empty"
    and "enhancedBotManager s = []" and "cells (spatialPlayerGrid s) = (\<lambda>c. {})"
  shows "\<exists>ps s'.
     generateOptimizedSpawnPositions (positionOrder env) (serverBoundaryCoordinates s)
         (randintEntropy env) numberOfBots (regionBoundaries s) = Inr ps \<and>
     spawnEnhancedBotsInRegion env numberOfBots s = Inr s' \<and>
     int (length ps) \<le> numberOfBots \<and>
     dom (activePlayerData s') = {0 ..< int (length ps)} \<and>
     dom (gameStateUpdates s') = {0 ..< int (length ps)} \<and>
     fst ` set (enhancedBotManager s') = {0 ..< int (length ps)} \<and>
     (\<Union>c. cells (spatialPlayerGrid s') c) = {0 ..< int (length ps)} \<and>
     (\<forall>i < length ps.
        activePlayerData s' (int i) =
          Some [''x'' \<mapsto> IntV (fst (ps ! i)), ''y'' \<mapsto> IntV (snd (ps ! i)),
                ''type'' \<mapsto> BoolV (isAggressive (spawnedBot env s (int i) (ps ! i))),
                ''angle'' \<mapsto> IntV 0, ''health'' \<mapsto> IntV 100] \<and>
        gameStateUpdates s' (int i) = Some Map.empty \<and>
        map_of (enhancedBotManager s') (int i) = Some (spawnedBot env s (int i) (ps ! i)) \<and>
        storePosition s' (int i) = Some (ps ! i) \<and>
        gridHolds s' (int i) (ps ! i) \<and>
        storeGridAgree s' (int i))"
proof -
  from generate_returns[OF assms(1) assms(2) assms(3) assms(4)]
  obtain ps where
    gen: "generateOptimizedSpawnPositions (positionOrder env) (serverBoundaryCoordinates s)
         (randintEntropy env) numberOfBots (regionBoundaries s) = Inr ps"
    and len: "int (length ps) \<le> numberOfBots"
    by blast
  define s' where "s' = spawnBots env 0 ps s"
  have sp: "spawnEnhancedBotsInRegion env numberOfBots s = Inr s'"
    by (simp add: spawnEnhancedBotsInRegion_def gen s'_def)
  have inside: "activePlayerData s' (int i) =
          Some [''x'' \<mapsto> IntV (fst (ps ! i)), ''y'' \<mapsto> IntV (snd (ps ! i)),
                ''type'' \<mapsto> BoolV (isAggressive (spawnedBot env s (int i) (ps ! i))),
                ''angle'' \<mapsto> IntV 0, ''health'' \<mapsto> IntV 100] \<and>
        gameStateUpdates s' (int i) = Some Map.empty \<and>
        map_of (enhancedBotManager s') (int i) = Some (spawnedBot env s (int i) (ps ! i)) \<and>
        int i \<in> cells (spatialPlayerGrid s')
                  (cellOf (spatialPlayerGrid s) (fst (ps ! i)) (snd (ps ! i)))"
    if "i < length ps" for i
    using spawnBots_inside[OF that, of env 0 s] by (simp add: s'_def)
  have outside: "activePlayerData s' j = None \<and> gameStateUpdates s' j = None \<and>
      map_of (enhancedBotManager s') j = None \<and>
      (\<forall>c. j \<notin> cells (spatialPlayerGrid s') c)"
    if "j < 0 \<or> int (length ps) \<le> j" for j
    using spawnBots_outside[of j 0 ps env s] that assms(5-8) by (simp add: s'_def)
  have cs: "cellOf (spatialPlayerGrid s') = cellOf (spatialPlayerGrid s)"
    using spawnBots_frame[of env 0 ps s] by (simp add: s'_def cellOf_def fun_eq_iff)
  have d1: "dom (activePlayerData s') = {0 ..< int (length ps)}"
  proof (rule set_eqI)
    fix j show "j \<in> dom (activePlayerData s') \<longleftrightarrow> j \<in> {0 ..< int (length ps)}"
    proof (cases "0 \<le> j \<and> j < int (length ps)")
      case True
      then obtain i where "i < length ps" "j = 0 + int i" using in_range_as_index by blast
      then show ?thesis using inside[of i] True by auto
    next
      case False
      then show ?thesis using outside[of j] by auto
    qed
  qed
  have d2: "dom (gameStateUpdates s') = {0 ..< int (length ps)}"
  proof (rule set_eqI)
    fix j show "j \<in> dom (gameStateUpdates s') \<longleftrightarrow> j \<in> {0 ..< int (length ps)}"
    proof (cases "0 \<le> j \<and> j < int (length ps)")
      case True
      then obtain i where "i < length ps" "j = 0 + int i" using in_range_as_index by blast
      then show ?thesis using inside[of i] True by auto
    next
      case False
      then show ?thesis using outside[of j] by auto
    qed
  qed
  have d3: "dom (map_of (enhancedBotManager s')) = {0 ..< int (length ps)}"
  proof (rule set_eqI)
    fix j show "j \<in> dom (map_of (enhancedBotManager s')) \<longleftrightarrow> j \<in> {0 ..< int (length ps)}"
    proof (cases "0 \<le> j \<and> j < int (length ps)")
      case True
      then obtain i where "i < length ps" "j = 0 + int i" using in_range_as_index by blast
      then show ?thesis using inside[of i] True by auto
    next
      case False
      then show ?thesis using outside[of j] by auto
    qed
  qed
  then have d3': "fst ` set (enhancedBotManager s') = {0 ..< int (length ps)}"
    by (simp add: dom_map_of_conv_image_fst)
  have d4: "(\<Union>c. cells (spatialPlayerGrid s') c) = {0 ..< int (length ps)}"
  proof (rule set_eqI)
    fix j show "j \<in> (\<Union>c. cells (spatialPlayerGrid s') c) \<longleftrightarrow> j \<in> {0 ..< int (length ps)}"
    proof (cases "0 \<le> j \<and> j < int (length ps)")
      case True
      then obtain i where i: "i < length ps" "j = 0 + int i" using in_range_as_index by blast
      have "j \<in> cells (spatialPlayerGrid s')
                  (cellOf (spatialPlayerGrid s) (fst (ps ! i)) (snd (ps ! i)))"
        using inside[OF i(1)] i(2) by simp
      then have "j \<in> (\<Union>c. cells (spatialPlayerGrid s') c)" by blast
      then show ?thesis using True by simp
    next
      case False
      then show ?thesis using outside[of j] by auto
    qed
  qed
  have each: "activePlayerData s' (int i) =
          Some [''x'' \<mapsto> IntV (fst (ps ! i)), ''y'' \<mapsto> IntV (snd (ps ! i)),
                ''type'' \<mapsto> BoolV (isAggressive (spawnedBot env s (int i) (ps ! i))),
                ''angle'' \<mapsto> IntV 0, ''health'' \<mapsto> IntV 100] \<and>
        gameStateUpdates s' (int i) = Some Map.empty \<and>
        map_of (enhancedBotManager s') (int i) = Some (spawnedBot env s (int i) (ps ! i)) \<and>
        storePosition s' (int i) = Some (ps ! i) \<and>
        gridHolds s' (int i) (ps ! i) \<and>
        storeGridAgree s' (int i)"
    if "i < length ps" for i
  proof -
    note ins = inside[OF that]
    have sp: "storePosition s' (int i) = Some (ps ! i)"
      using ins by (simp add: storePosition_def)
    have gh: "gridHolds s' (int i) (ps ! i)"
      using ins cs by (simp add: gridHolds_def)
    have "storeGridAgree s' (int i)" using sp gh by (simp add: storeGridAgree_def)
    then show ?thesis using ins sp gh by blast
  qed
  show ?thesis
    using gen sp len d1 d2 d3' d4 each by (intro exI[of _ ps] exI[of _ s']) blast
qed

lemma region_server_facts:
  "enumerates (positionOrder exampleSpawnEnv)"
  "0 \<le> fst (serverBoundaryCoordinates regionServer)"
  "0 \<le> snd (serverBoundaryCoordinates regionServer)"
  "activePlayerData regionServer = Map.empty"
  "gameStateUpdates regionServer = Map.empty"
  "enhancedBotManager regionServer = []"
  "cells (spatialPlayerGrid regionServer) = (\<lambda>c. {})"
  by (simp_all add: exampleSpawnEnv_def regionServer_def exampleServer_def
        initialAttributes_def EnhancedPlayerGrid_def enumerates_def)

lemma region_server_origin: "regionBoundaries regionServer = (0, 0)"
  by (simp add: regionBoundaries_def regionServer_def exampleServer_def initialAttributes_def)

lemma region_server_positions:
  "generateOptimizedSpawnPositions (positionOrder exampleSpawnEnv)
     (serverBoundaryCoordinates regionServer) (randintEntropy exampleSpawnEnv) 2
     (regionBoundaries regionServer) = Inr [(0, 0), (140, 60)]"
proof -
  have a: "positionOrder exampleSpawnEnv = sorted_list_of_set"
    "randintEntropy exampleSpawnEnv = (\<lambda>i. (nat (i * 70), nat (i * 30)))"
    by (simp_all add: exampleSpawnEnv_def)
  have b: "serverBoundaryCoordinates regionServer = (2000, 2000)"
    by (simp add: regionServer_def)
  show ?thesis unfolding a b region_server_origin
    by (simp add: generateOptimizedSpawnPositions_def spawnSearch.simps randint_def tooClose_def)
qed

theorem spawn_fills_structures_witness:
  "enumerates (positionOrder exampleSpawnEnv) \<and> (0::int) \<le> 2 \<and>
   0 \<le> fst (serverBoundaryCoordinates regionServer) \<and>
   0 \<le> snd (serverBoundaryCoordinates regionServer) \<and>
   activePlayerData regionServer = Map.empty \<and>
   gameStateUpdates regionServer = Map.empty \<and>
   enhancedBotManager regionServer = [] \<and>
   cells (spatialPlayerGrid regionServer) = (\<lambda>c. {}) \<and>
   (\<exists>s'. spawnEnhancedBotsInRegion exampleSpawnEnv 2 regionServer = Inr s' \<and>
      dom (activePlayerData s') = {0 ..< 2} \<and>
      storePosition s' 1 = Some (140, 60) \<and>
      gameStateUpdates s' 1 = Some Map.empty \<and>
      gridHolds s' 1 (140, 60))"
proof -
  have n: "(0::int) \<le> 2" by simp
  from spawn_fills_structures_consistently[OF region_server_facts(1) n
         region_server_facts(2-7)]
  obtain ps s' where
    gen: "generateOptimizedSpawnPositions (positionOrder exampleSpawnEnv)
            (serverBoundaryCoordinates regionServer) (randintEntropy exampleSpawnEnv) 2
            (regionBoundaries regionServer) = Inr ps"
    and sp: "spawnEnhancedBotsInRegion exampleSpawnEnv 2 regionServer = Inr s'"
    and dm: "dom (activePlayerData s') = {0 ..< int (length ps)}"
    and each: "\<forall>i < length ps.
        gameStateUpdates s' (int i) = Some Map.empty \<and>
        storePosition s' (int i) = Some (ps ! i) \<and>
        gridHolds s' (int i) (ps ! i)"
    by (elim exE conjE) (rule that, assumption+, blast)
  have ps: "ps = [(0, 0), (140, 60)]" using gen region_server_positions by simp
  have e1: "gameStateUpdates s' 1 = Some Map.empty \<and> storePosition s' 1 = Some (140, 60) \<and>
            gridHolds s' 1 (140, 60)"
    using each[rule_format, of 1] by (simp add: ps)
  have d: "dom (activePlayerData s') = {0 ..< 2}" using dm by (simp add: ps)
  have "\<exists>s'. spawnEnhancedBotsInRegion exampleSpawnEnv 2 regionServer = Inr s' \<and>
      dom (activePlayerData s') = {0 ..< 2} \<and>
      storePosition s' 1 = Some (140, 60) \<and>
      gameStateUpdates s' 1 = Some Map.empty \<and>
      gridHolds s' 1 (140, 60)"
    using sp d e1 by (intro exI[of _ s']) simp
  then show ?thesis
    using region_server_facts n by (intro conjI) assumption+
qed

subsection \<open>The empty tile set\<close>

text \<open>
  Claim C5. For the empty tile set the method computes the empty point list and hands it
  to the KD-tree constructor without a guard of its own: the build succeeds, with an
  empty position mapping, exactly when the constructor accepts an empty list, and
  raises the constructor's exception otherwise. A map with no collision layer gives
  the empty tile set.
\<close>

theorem empty_tile_set_reaches_constructor:
  assumes "enumerates order"
  shows "buildOptimizedCollisionKdTree kdRaises order {} =
           (case kdRaises [] of
              Some e \<Rightarrow> Inl e
            | None \<Rightarrow> Inr (KDTree [] 16, Map.empty)) \<and>
         extractCollidableTilesOptimized [] = {}"
proof -
  have "set (order {}) = {}" using assms by (simp add: enumerates_def)
  then have "order {} = []" by simp
  then show ?thesis
    by (simp add: buildOptimizedCollisionKdTree_def dictOf_def extractCollidableTilesOptimized_def
          split: option.splits)
qed

theorem empty_tile_set_witness:
  "enumerates (sorted_list_of_set :: tile set \<Rightarrow> tile list) \<and>
   buildOptimizedCollisionKdTree rejectsEmpty sorted_list_of_set
     (extractCollidableTilesOptimized []) = Inl ValueError \<and>
   buildOptimizedCollisionKdTree (\<lambda>points. None) sorted_list_of_set
     (extractCollidableTilesOptimized []) = Inr (KDTree [] 16, Map.empty)"
proof -
  have h: "enumerates (sorted_list_of_set :: tile set \<Rightarrow> tile list)"
    by (simp add: enumerates_def)
  have a: "buildOptimizedCollisionKdTree rejectsEmpty sorted_list_of_set
     (extractCollidableTilesOptimized []) = Inl ValueError"
    using empty_tile_set_reaches_constructor[OF h, of rejectsEmpty]
    by (simp add: rejectsEmpty_def)
  have b: "buildOptimizedCollisionKdTree (\<lambda>points. None) sorted_list_of_set
     (extractCollidableTilesOptimized []) = Inr (KDTree [] 16, Map.empty)"
    using empty_tile_set_reaches_constructor[OF h, of "\<lambda>points. None"]
    by simp
  show ?thesis using h a b by blast
qed

subsection \<open>Errors in the steady-state loop\<close>


























end
